theory Spec2Isabelle
  imports Complex_Main
begin

section \<open>The batch client (sarvam.js)\<close>

subsection \<open>Values exchanged with the service\<close>

text \<open>
  Strings are character lists. The source only ever splits on the ASCII slash, tests the
  ASCII prefix http and concatenates, so the choice of code unit does not matter here.
  Byte sequences (stream contents, file contents) are character lists as well.
\<close>

type_synonym bytes = string

text \<open>
  A thrown JavaScript error: its \<open>message\<close>, and \<open>response.data\<close> when the error comes from
  an HTTP response (\<open>None\<close> for a transport error or a plain \<open>Error\<close>).
\<close>

datatype js_error = JsError (err_message: string) (err_response_data: "string option")

text \<open>What the catch blocks print: \<open>error.response?.data || error.message\<close>.\<close>

definition err_detail :: "js_error \<Rightarrow> string" where
  "err_detail e =
     (case err_response_data e of
        None \<Rightarrow> err_message e
      | Some d \<Rightarrow> (if d = [] then err_message e else d))"

text \<open>The response fields the client reads (\<open>response.data\<close> of init, status and listing).\<close>

record init_data =
  job_id :: string
  input_storage_path :: string
  output_storage_path :: string

record status_response =
  job_state :: string
  error_message :: "string option"

record file_entry =
  entry_name :: string

text \<open>
  The stream handed from \<open>getAudioStream\<close> to \<open>uploadFile\<close>: the body of the remote
  response, or a reader on a local path.
\<close>

datatype audio_stream = Response_body bytes | File_reader string

subsection \<open>Configuration constants\<close>

definition DESTINATION_DIR :: string where
  "DESTINATION_DIR = ''./output''"

definition BASE_URL :: string where
  "BASE_URL = ''https://api.sarvam.ai/call-analytics/''"

definition default_name :: string where
  "default_name = ''audio.wav''"

definition maxAttempts :: nat where
  "maxAttempts = 60"

definition interval :: nat where
  "interval = 10000"

subsection \<open>Observable effects\<close>

text \<open>
  One constructor per console statement of the source, carrying the values it interpolates.
\<close>

datatype logline =
    L_missing_key
  | L_initializing
  | L_job_initialized init_data
  | L_error_initializing string
  | L_uploading
  | L_uploaded
  | L_error_uploading string
  | L_starting
  | L_started
  | L_error_starting string
  | L_checking
  | L_current_job_status string
  | L_error_checking string
  | L_downloading
  | L_downloaded string
  | L_all_downloaded
  | L_error_downloading string
  | L_job_completed
  | L_job_failed
  | L_job_error "string option"
  | L_current_status string nat nat
  | L_did_not_complete
  | L_processing_complete
  | L_results_saved string
  | L_error_processing string

text \<open>
  The events of a run, in the order they happen: console output, the HTTP requests, the
  file system calls with an effect, and the polling sleep (in milliseconds).
\<close>

datatype event =
    Console_log logline
  | Console_error logline
  | Post_init string
  | Get_source string
  | Put_upload "string option" string audio_stream
  | Post_job string "string option"
  | Get_status string
  | Mkdir string
  | Get_listing "string option"
  | Get_artifact string
  | Write_file string bytes
  | Write_failed string
  | Sleep nat

text \<open>
  The world the program runs in: the events so far, the local file system (file contents
  and directories), and how many status requests the service has answered.
\<close>

record world =
  w_trace :: "event list"
  w_files :: "string \<Rightarrow> bytes option"
  w_dirs :: "string set"
  w_polls :: nat

text \<open>
  What the surroundings answer: the audio source specifier (the constant \<open>AUDIO_SOURCE\<close>
  of the source, a parameter here), the reply to each request, and the outcome of each
  file system call that can throw. Status replies are scripted: the k-th status request
  gets \<open>status_script k\<close>.
\<close>

record env =
  audio_source :: string
  init_reply :: "js_error + init_data"
  source_reply :: "js_error + bytes"
  upload_reply :: "js_error + unit"
  start_reply :: "js_error + unit"
  status_script :: "nat \<Rightarrow> js_error + status_response"
  listing_reply :: "js_error + file_entry list"
  artifact_reply :: "string \<Rightarrow> js_error + bytes"
  mkdir_error :: "js_error option"
  write_error :: "string \<Rightarrow> js_error option"

definition emit :: "event \<Rightarrow> world \<Rightarrow> world" where
  "emit e w = w\<lparr>w_trace := w_trace w @ [e]\<rparr>"

definition existsSync :: "world \<Rightarrow> string \<Rightarrow> bool" where
  "existsSync w p \<longleftrightarrow> p \<in> w_dirs w \<or> w_files w p \<noteq> None"

text \<open>A template literal prints \<open>null\<close> for a field that was never assigned.\<close>

definition js_str :: "string option \<Rightarrow> string" where
  "js_str v = (case v of None \<Rightarrow> ''null'' | Some s \<Rightarrow> s)"

subsection \<open>String helpers of the runtime\<close>

text \<open>\<open>s.split(c)\<close> for a one-character separator: never empty, \<open>''''\<close> gives one empty piece.\<close>

fun split_on :: "char \<Rightarrow> string \<Rightarrow> string list" where
  "split_on c [] = [[]]"
| "split_on c (x # xs) =
     (if x = c then [] # split_on c xs
      else (let r = split_on c xs in (x # hd r) # tl r))"

definition startsWith :: "string \<Rightarrow> string \<Rightarrow> bool" where
  "startsWith s p \<longleftrightarrow> take (length p) s = p"

text \<open>
  \<open>AUDIO_SOURCE.split('/').pop() || 'audio.wav'\<close>, the expression both branches of
  \<open>getAudioStream\<close> use for the name: the empty string is falsy.
\<close>

definition inferred_name :: "string \<Rightarrow> string" where
  "inferred_name src =
     (let p = last (split_on CHR ''/'' src) in if p = [] then default_name else p)"

subsection \<open>SarvamBatchClient\<close>

record client =
  jobId :: "string option"
  inputStoragePath :: "string option"
  outputStoragePath :: "string option"

definition new_client :: client where
  "new_client = \<lparr>jobId = None, inputStoragePath = None, outputStoragePath = None\<rparr>"

definition initializeJob ::
  "env \<Rightarrow> client \<Rightarrow> world \<Rightarrow> (js_error + init_data) \<times> client \<times> world" where
  "initializeJob en c w =
     (let w1 = emit (Post_init (BASE_URL @ ''job/init'')) (emit (Console_log L_initializing) w)
      in case init_reply en of
           Inl e \<Rightarrow> (Inl e, c, emit (Console_error (L_error_initializing (err_detail e))) w1)
         | Inr d \<Rightarrow>
             (Inr d,
              c\<lparr>jobId := Some (job_id d),
                inputStoragePath := Some (input_storage_path d),
                outputStoragePath := Some (output_storage_path d)\<rparr>,
              emit (Console_log (L_job_initialized d)) w1))"

text \<open>
  The upload goes to \<open>inputStoragePath/encodeURIComponent(fileName)\<close>; the event keeps the
  two parts of that address as they are, before encoding.
\<close>

definition uploadFile ::
  "env \<Rightarrow> client \<Rightarrow> audio_stream \<Rightarrow> string \<Rightarrow> world \<Rightarrow> (js_error + unit) \<times> world" where
  "uploadFile en c fileStream fileName w =
     (let w1 = emit (Put_upload (inputStoragePath c) fileName fileStream)
                 (emit (Console_log L_uploading) w)
      in case upload_reply en of
           Inl e \<Rightarrow> (Inl e, emit (Console_error (L_error_uploading (err_detail e))) w1)
         | Inr d \<Rightarrow> (Inr d, emit (Console_log L_uploaded) w1))"

text \<open>The request body is the fixed parameter bundle bound to \<open>jobId\<close>.\<close>

definition startJob :: "env \<Rightarrow> client \<Rightarrow> world \<Rightarrow> (js_error + unit) \<times> world" where
  "startJob en c w =
     (let w1 = emit (Post_job (BASE_URL @ ''job'') (jobId c)) (emit (Console_log L_starting) w)
      in case start_reply en of
           Inl e \<Rightarrow> (Inl e, emit (Console_error (L_error_starting (err_detail e))) w1)
         | Inr d \<Rightarrow> (Inr d, emit (Console_log L_started) w1))"

definition checkJobStatus ::
  "env \<Rightarrow> client \<Rightarrow> world \<Rightarrow> (js_error + status_response) \<times> world" where
  "checkJobStatus en c w =
     (let w1 = emit (Get_status (BASE_URL @ ''job/'' @ js_str (jobId c) @ ''/status''))
                 (emit (Console_log L_checking) w);
          w2 = w1\<lparr>w_polls := Suc (w_polls w)\<rparr>
      in case status_script en (w_polls w) of
           Inl e \<Rightarrow> (Inl e, emit (Console_error (L_error_checking (err_detail e))) w2)
         | Inr r \<Rightarrow> (Inr r, emit (Console_log (L_current_job_status (job_state r))) w2))"

text \<open>
  The loop over the listing. Each artifact is fetched, written and logged before the next
  one is touched; the first failure leaves the loop. What a failed write leaves on disk is
  not modelled.
\<close>

fun download_each :: "env \<Rightarrow> client \<Rightarrow> file_entry list \<Rightarrow> world \<Rightarrow> (js_error + unit) \<times> world" where
  "download_each en c [] w = (Inr (), w)"
| "download_each en c (file # rest) w =
     (let fileUrl = js_str (outputStoragePath c) @ ''/'' @ entry_name file;
          downloadPath = DESTINATION_DIR @ ''/'' @ entry_name file;
          w1 = emit (Get_artifact fileUrl) w
      in case artifact_reply en fileUrl of
           Inl e \<Rightarrow> (Inl e, w1)
         | Inr body \<Rightarrow>
             (case write_error en downloadPath of
                Some e \<Rightarrow> (Inl e, emit (Write_failed downloadPath) w1)
              | None \<Rightarrow>
                  download_each en c rest
                    (emit (Console_log (L_downloaded (entry_name file)))
                       ((emit (Write_file downloadPath body) w1)
                          \<lparr>w_files := (w_files w1)(downloadPath \<mapsto> body)\<rparr>))))"

definition ensure_destination :: "env \<Rightarrow> world \<Rightarrow> (js_error + unit) \<times> world" where
  "ensure_destination en w =
     (if \<not> existsSync w DESTINATION_DIR then
        (case mkdir_error en of
           Some e \<Rightarrow> (Inl e, emit (Mkdir DESTINATION_DIR) w)
         | None \<Rightarrow>
             (Inr (), (emit (Mkdir DESTINATION_DIR) w)
                        \<lparr>w_dirs := insert DESTINATION_DIR (w_dirs w)\<rparr>))
      else (Inr (), w))"

text \<open>The body of the try block of \<open>downloadResults\<close>.\<close>

definition download_try :: "env \<Rightarrow> client \<Rightarrow> world \<Rightarrow> (js_error + unit) \<times> world" where
  "download_try en c w =
     (case ensure_destination en w of
        (Inl e, w1) \<Rightarrow> (Inl e, w1)
      | (Inr u, w1) \<Rightarrow>
          (let w2 = emit (Get_listing (outputStoragePath c)) w1
           in case listing_reply en of
                Inl e \<Rightarrow> (Inl e, w2)
              | Inr files \<Rightarrow>
                  (case download_each en c files w2 of
                     (Inl e, w3) \<Rightarrow> (Inl e, w3)
                   | (Inr u, w3) \<Rightarrow> (Inr (), emit (Console_log L_all_downloaded) w3))))"

definition downloadResults :: "env \<Rightarrow> client \<Rightarrow> world \<Rightarrow> (js_error + unit) \<times> world" where
  "downloadResults en c w =
     (case download_try en c (emit (Console_log L_downloading) w) of
        (Inl e, w1) \<Rightarrow> (Inl e, emit (Console_error (L_error_downloading (err_detail e))) w1)
      | (Inr u, w1) \<Rightarrow> (Inr (), w1))"

definition getAudioStream :: "env \<Rightarrow> world \<Rightarrow> (js_error + audio_stream \<times> string) \<times> world" where
  "getAudioStream en w =
     (if startsWith (audio_source en) ''http'' then
        (let w1 = emit (Get_source (audio_source en)) w
         in case source_reply en of
              Inl e \<Rightarrow> (Inl e, w1)
            | Inr body \<Rightarrow> (Inr (Response_body body, inferred_name (audio_source en)), w1))
      else if \<not> existsSync w (audio_source en) then
        (Inl (JsError (''File not found: '' @ audio_source en) None), w)
      else (Inr (File_reader (audio_source en), inferred_name (audio_source en)), w))"

subsection \<open>The orchestrator\<close>

text \<open>
  How the while loop of \<open>main\<close> is left: a status check threw, the \<open>Failed\<close> branch returned
  from \<open>main\<close>, or control reached the statement after the loop (through \<open>break\<close> or
  through the loop condition) with the last status seen.
\<close>

datatype loop_exit = Loop_threw js_error | Loop_returned | Loop_done string

function poll_loop ::
  "nat \<Rightarrow> nat \<Rightarrow> env \<Rightarrow> client \<Rightarrow> string \<Rightarrow> nat \<Rightarrow> world \<Rightarrow> loop_exit \<times> world" where
  "poll_loop maxA itv en c status attempts w =
     (if attempts < maxA then
        (let attempts1 = attempts + 1 in
         case checkJobStatus en c w of
           (Inl e, w1) \<Rightarrow> (Loop_threw e, w1)
         | (Inr statusResponse, w1) \<Rightarrow>
             (let status1 = job_state statusResponse in
              if status1 = ''Completed'' then
                (Loop_done status1, emit (Console_log L_job_completed) w1)
              else if status1 = ''Failed'' then
                (Loop_returned,
                 emit (Console_log (L_job_error (error_message statusResponse)))
                   (emit (Console_log L_job_failed) w1))
              else
                poll_loop maxA itv en c status1 attempts1
                  (emit (Sleep itv)
                     (emit (Console_log (L_current_status status1 attempts1 maxA)) w1))))
      else (Loop_done status, w))"
  by pat_completeness auto
termination
  by (relation "measure (\<lambda>(maxA, itv, en, c, status, attempts, w). maxA - attempts)") auto

declare poll_loop.simps [simp del]

text \<open>Steps 4 and 5 of \<open>main\<close>: the loop, the test after it, and the download.\<close>

definition monitor_and_download ::
  "nat \<Rightarrow> nat \<Rightarrow> env \<Rightarrow> client \<Rightarrow> world \<Rightarrow> (js_error + unit) \<times> world" where
  "monitor_and_download maxA itv en c w =
     (case poll_loop maxA itv en c [] 0 w of
        (Loop_threw e, w1) \<Rightarrow> (Inl e, w1)
      | (Loop_returned, w1) \<Rightarrow> (Inr (), w1)
      | (Loop_done status, w1) \<Rightarrow>
          (if status \<noteq> ''Completed'' then
             (Inr (), emit (Console_log L_did_not_complete) w1)
           else
             (case downloadResults en c w1 of
                (Inl e, w2) \<Rightarrow> (Inl e, w2)
              | (Inr u, w2) \<Rightarrow>
                  (Inr (),
                   emit (Console_log (L_results_saved DESTINATION_DIR))
                     (emit (Console_log L_processing_complete) w2)))))"

text \<open>
  The try block of \<open>main\<close>, with the two constants of the loop as parameters: \<open>Inl\<close> is an
  error on its way to the catch block, \<open>Inr\<close> is a normal return.
\<close>

definition main_body :: "nat \<Rightarrow> nat \<Rightarrow> env \<Rightarrow> world \<Rightarrow> (js_error + unit) \<times> world" where
  "main_body maxA itv en w =
     (case initializeJob en new_client w of
        (Inl e, c, w1) \<Rightarrow> (Inl e, w1)
      | (Inr d, c, w1) \<Rightarrow>
          (case getAudioStream en w1 of
             (Inl e, w2) \<Rightarrow> (Inl e, w2)
           | (Inr (stream, name), w2) \<Rightarrow>
               (case uploadFile en c stream name w2 of
                  (Inl e, w3) \<Rightarrow> (Inl e, w3)
                | (Inr u, w3) \<Rightarrow>
                    (case startJob en c w3 of
                       (Inl e, w4) \<Rightarrow> (Inl e, w4)
                     | (Inr u, w4) \<Rightarrow> monitor_and_download maxA itv en c w4))))"

text \<open>
  How the process ends: \<open>process.exit(n)\<close> was called, or \<open>main\<close> returned and the process
  ends by itself, with status 0.
\<close>

datatype outcome = Exited nat | Returned

definition exit_status :: "outcome \<Rightarrow> nat" where
  "exit_status out = (case out of Exited n \<Rightarrow> n | Returned \<Rightarrow> 0)"

definition main_with :: "nat \<Rightarrow> nat \<Rightarrow> env \<Rightarrow> world \<Rightarrow> outcome \<times> world" where
  "main_with maxA itv en w =
     (case main_body maxA itv en w of
        (Inl e, w1) \<Rightarrow> (Exited 1, emit (Console_error (L_error_processing (err_message e))) w1)
      | (Inr u, w1) \<Rightarrow> (Returned, w1))"

definition main :: "env \<Rightarrow> world \<Rightarrow> outcome \<times> world" where
  "main = main_with maxAttempts interval"

text \<open>The module: the key check at load time, then \<open>main()\<close>. An empty key is falsy.\<close>

definition program :: "string option \<Rightarrow> env \<Rightarrow> world \<Rightarrow> outcome \<times> world" where
  "program SARVAM_API_KEY en w =
     (if SARVAM_API_KEY = None \<or> SARVAM_API_KEY = Some []
      then (Exited 1, emit (Console_error L_missing_key) w)
      else main en w)"

subsection \<open>Reading a trace\<close>

fun is_status_call :: "event \<Rightarrow> bool" where
  "is_status_call (Get_status u) = True"
| "is_status_call e = False"

fun is_sleep :: "event \<Rightarrow> bool" where
  "is_sleep (Sleep n) = True"
| "is_sleep e = False"

text \<open>The events of the download step: directory creation, listing, fetches and writes.\<close>

fun is_download_event :: "event \<Rightarrow> bool" where
  "is_download_event (Mkdir p) = True"
| "is_download_event (Get_listing u) = True"
| "is_download_event (Get_artifact u) = True"
| "is_download_event (Write_file p b) = True"
| "is_download_event (Write_failed p) = True"
| "is_download_event e = False"

fun is_artifact_event :: "event \<Rightarrow> bool" where
  "is_artifact_event (Get_artifact u) = True"
| "is_artifact_event (Write_file p b) = True"
| "is_artifact_event (Write_failed p) = True"
| "is_artifact_event e = False"

text \<open>Everything a run does apart from console output: requests, file system calls, sleeps.\<close>

fun is_effect :: "event \<Rightarrow> bool" where
  "is_effect (Console_log l) = False"
| "is_effect (Console_error l) = False"
| "is_effect e = True"

definition effects :: "world \<Rightarrow> event list" where
  "effects w = filter is_effect (w_trace w)"

definition status_calls :: "world \<Rightarrow> nat" where
  "status_calls w = length (filter is_status_call (w_trace w))"

definition sleeps :: "world \<Rightarrow> event list" where
  "sleeps w = filter is_sleep (w_trace w)"

definition download_events :: "world \<Rightarrow> event list" where
  "download_events w = filter is_download_event (w_trace w)"

definition artifact_events :: "world \<Rightarrow> event list" where
  "artifact_events w = filter is_artifact_event (w_trace w)"

section \<open>The synchronous consumer (main.js)\<close>

text \<open>
  Both copies of the script share the code below; they differ in the request options only.
  An utterance carries its two times in seconds, the index of its speaker (assigned by the
  service, a natural number) and its text.
\<close>

record utterance =
  u_start :: real
  u_end :: real
  u_speaker :: nat
  u_transcript :: string

record dg_language =
  lang_code :: "string option"

record dg_metadata =
  md_language :: "dg_language option"

record dg_response =
  resp_utterances :: "utterance list"
  resp_metadata :: "dg_metadata option"

record transcript_entry =
  t_start :: string
  t_end :: string
  t_text :: string
  t_speaker :: string

record printed =
  raw_transcript :: string
  transcript :: "transcript_entry list"
  language :: string

subsection \<open>Numbers and strings of the runtime\<close>

text \<open>
  A JavaScript number is a double. The model takes a number as the real it denotes and
  leaves the two operations of the script whose result depends on the double format to
  the runtime: the division, which rounds the quotient to the nearest double, and the
  conversion of a number to a string. The script converts integer-valued numbers only.
\<close>

record runtime =
  number_divide :: "real \<Rightarrow> real \<Rightarrow> real"
  number_toString :: "int \<Rightarrow> string"

text \<open>
  \<open>Math.round\<close>: the nearest integer, a tie going up. The result is exact for every double:
  below \<open>2^52\<close> the integer is representable, from there on every double is an integer.
\<close>

definition Math_round :: "real \<Rightarrow> int" where
  "Math_round t = \<lfloor>t + 1 / 2\<rfloor>"

text \<open>
  The remainder operator on integer-valued numbers: the result has the sign of the
  dividend, and it is exact.
\<close>

definition js_rem :: "int \<Rightarrow> int \<Rightarrow> int" where
  "js_rem a b = (if a < 0 then - ((- a) mod \<bar>b\<bar>) else a mod \<bar>b\<bar>)"

text \<open>\<open>s.padStart(n, c)\<close> for a one-character filler.\<close>

definition padStart :: "nat \<Rightarrow> char \<Rightarrow> string \<Rightarrow> string" where
  "padStart n c s = replicate (n - length s) c @ s"

text \<open>\<open>xs.join(sep)\<close>.\<close>

fun join :: "string \<Rightarrow> string list \<Rightarrow> string" where
  "join sep [] = []"
| "join sep [x] = x"
| "join sep (x # y # ys) = x @ sep @ join sep (y # ys)"

subsection \<open>The script\<close>

definition fmt :: "runtime \<Rightarrow> real \<Rightarrow> string" where
  "fmt rt t =
     (let s = Math_round t;
          h = \<lfloor>number_divide rt (of_int s) 3600\<rfloor>;
          m = \<lfloor>number_divide rt (of_int (js_rem s 3600)) 60\<rfloor>;
          sec = js_rem s 60
      in number_toString rt h @ '':'' @ padStart 2 CHR ''0'' (number_toString rt m) @ '':''
           @ padStart 2 CHR ''0'' (number_toString rt sec))"

definition speaker_label :: "runtime \<Rightarrow> utterance \<Rightarrow> string" where
  "speaker_label rt u =
     ''SPEAKER'' @ padStart 2 CHR ''0'' (number_toString rt (int (u_speaker u)))"

definition raw_line :: "runtime \<Rightarrow> utterance \<Rightarrow> string" where
  "raw_line rt u =
     ''['' @ fmt rt (u_start u) @ '' -> '' @ fmt rt (u_end u) @ ''] '' @ speaker_label rt u
       @ '': '' @ u_transcript u"

definition entry_of :: "runtime \<Rightarrow> utterance \<Rightarrow> transcript_entry" where
  "entry_of rt u =
     \<lparr>t_start = fmt rt (u_start u), t_end = fmt rt (u_end u), t_text = u_transcript u,
      t_speaker = speaker_label rt u\<rparr>"

text \<open>\<open>resp.metadata?.language?.code ?? 'hi'\<close>.\<close>

definition language_of :: "dg_response \<Rightarrow> string" where
  "language_of resp =
     (case resp_metadata resp of
        None \<Rightarrow> ''hi''
      | Some md \<Rightarrow>
          (case md_language md of
             None \<Rightarrow> ''hi''
           | Some l \<Rightarrow> (case lang_code l of None \<Rightarrow> ''hi'' | Some c \<Rightarrow> c)))"

text \<open>
  The script from the reply of \<open>preRecorded\<close> on: a thrown error is logged and nothing is
  printed; otherwise the three fields are printed as one JSON object.
\<close>

datatype transcriber_output = Transcription_error js_error | Printed printed

definition transcriber :: "runtime \<Rightarrow> js_error + dg_response \<Rightarrow> transcriber_output" where
  "transcriber rt reply =
     (case reply of
        Inl err \<Rightarrow> Transcription_error err
      | Inr resp \<Rightarrow>
          (let utterances = resp_utterances resp
           in Printed
                \<lparr>raw_transcript = join [CHR 0x0A] (map (raw_line rt) utterances),
                 transcript = map (entry_of rt) utterances,
                 language = language_of resp\<rparr>))"

section \<open>Reference definitions and sample inputs\<close>

subsection \<open>The terms of the specification\<close>

text \<open>
  A status reply that keeps the loop going: it was delivered, and its state is neither
  \<open>Completed\<close> nor \<open>Failed\<close>.
\<close>

definition non_terminal :: "js_error + status_response \<Rightarrow> bool" where
  "non_terminal reply =
     (case reply of
        Inl e \<Rightarrow> False
      | Inr r \<Rightarrow> job_state r \<noteq> ''Completed'' \<and> job_state r \<noteq> ''Failed'')"





subsection \<open>The output format\<close>

text \<open>
  Decimal notation, written out independently of the script: the digit for a value below
  ten, the digits of a natural number without leading zeros, and the value a digit string
  denotes.
\<close>

definition digit_char :: "nat \<Rightarrow> char" where
  "digit_char d = ''0123456789'' ! d"

fun decimal :: "nat \<Rightarrow> string" where
  "decimal n = (if n < 10 then [digit_char n] else decimal (n div 10) @ [digit_char (n mod 10)])"

declare decimal.simps [simp del]

definition is_digit :: "char \<Rightarrow> bool" where
  "is_digit c \<longleftrightarrow> c \<in> set ''0123456789''"

definition digit_value :: "char \<Rightarrow> nat" where
  "digit_value c = of_char c - 48"

definition number_of :: "string \<Rightarrow> nat" where
  "number_of s = foldl (\<lambda>a c. 10 * a + digit_value c) 0 s"

text \<open>
  What the proof uses of double arithmetic and of the conversion to a string. A quotient
  that is an integer of magnitude at most \<open>2^53\<close> is a double and is returned as it is; a
  quotient of magnitude below \<open>2^42\<close> is rounded by at most half the spacing of the doubles
  there, which is \<open>2^-12\<close>; a non-negative integer below \<open>2^53\<close> is printed in plain decimal
  notation.
\<close>

definition double_facts :: "runtime \<Rightarrow> bool" where
  "double_facts rt \<longleftrightarrow>
     (\<forall>k b :: int. b \<noteq> 0 \<and> \<bar>k\<bar> \<le> 2 ^ 53 \<longrightarrow>
        number_divide rt (of_int (k * b)) (of_int b) = of_int k)
     \<and> (\<forall>a b :: real. b \<noteq> 0 \<and> \<bar>a / b\<bar> < 2 ^ 42 \<longrightarrow>
          \<bar>number_divide rt a b - a / b\<bar> \<le> 1 / 4096)
     \<and> (\<forall>i. 0 \<le> i \<and> i < 2 ^ 53 \<longrightarrow> number_toString rt i = decimal (nat i))"

text \<open>
  \<open>H:MM:SS\<close> of a whole number of seconds: hours unpadded, minutes and seconds as two
  decimal digits each.
\<close>

definition two_digits :: "nat \<Rightarrow> string" where
  "two_digits k = [digit_char (k div 10), digit_char (k mod 10)]"

definition whole_seconds :: "real \<Rightarrow> nat" where
  "whole_seconds t = nat \<lfloor>t + 1 / 2\<rfloor>"

definition hms :: "nat \<Rightarrow> string" where
  "hms n =
     decimal (n div 3600) @ '':'' @ two_digits (n div 60 mod 60) @ '':'' @ two_digits (n mod 60)"

definition speaker_tag :: "nat \<Rightarrow> string" where
  "speaker_tag n = ''SPEAKER'' @ (if n < 10 then [CHR ''0'', digit_char n] else decimal n)"

definition formatted_line :: "utterance \<Rightarrow> string" where
  "formatted_line u =
     ''['' @ hms (whole_seconds (u_start u)) @ '' -> '' @ hms (whole_seconds (u_end u))
       @ ''] '' @ speaker_tag (u_speaker u) @ '': '' @ u_transcript u"

definition formatted_entry :: "utterance \<Rightarrow> transcript_entry" where
  "formatted_entry u =
     \<lparr>t_start = hms (whole_seconds (u_start u)), t_end = hms (whole_seconds (u_end u)),
      t_text = u_transcript u, t_speaker = speaker_tag (u_speaker u)\<rparr>"

text \<open>Lines of text: a line feed between one line and the next, none at the end.\<close>

definition lines_text :: "string list \<Rightarrow> string" where
  "lines_text ls = butlast (concat (map (\<lambda>l. l @ [CHR 0x0A]) ls))"

definition provided_code :: "dg_response \<Rightarrow> string option" where
  "provided_code resp =
     Option.bind (resp_metadata resp) (\<lambda>md. Option.bind (md_language md) lang_code)"

subsection \<open>Describing a run\<close>


text \<open>
  The steps of the workflow, as the requests each one makes: the init request; the fetch of
  a remote source (a local source is opened without a request); the upload and the start
  request; one status request per loop turn, followed by the sleep when the loop goes on;
  the creation of the destination directory when it is missing, the listing, and for each
  artifact a fetch followed by a write.
\<close>

definition init_request :: event where
  "init_request = Post_init ''https://api.sarvam.ai/call-analytics/job/init''"

definition source_fetch :: "env \<Rightarrow> event list" where
  "source_fetch en =
     (if take 4 (audio_source en) = ''http'' then [Get_source (audio_source en)] else [])"

definition setup_effects :: "env \<Rightarrow> init_data \<Rightarrow> audio_stream \<Rightarrow> string \<Rightarrow> event list" where
  "setup_effects en d stream name =
     init_request # source_fetch en @
     [Put_upload (Some (input_storage_path d)) name stream,
      Post_job ''https://api.sarvam.ai/call-analytics/job'' (Some (job_id d))]"

definition status_request :: "init_data \<Rightarrow> event" where
  "status_request d =
     Get_status (''https://api.sarvam.ai/call-analytics/job/'' @ job_id d @ ''/status'')"

definition polling :: "init_data \<Rightarrow> nat \<Rightarrow> nat \<Rightarrow> event list" where
  "polling d itv j = concat (replicate j [status_request d, Sleep itv])"

definition make_destination :: "world \<Rightarrow> event list" where
  "make_destination w = (if existsSync w ''./output'' then [] else [Mkdir ''./output''])"

definition artifact_url :: "init_data \<Rightarrow> file_entry \<Rightarrow> string" where
  "artifact_url d f = output_storage_path d @ ''/'' @ entry_name f"

definition artifact_path :: "file_entry \<Rightarrow> string" where
  "artifact_path f = ''./output/'' @ entry_name f"

text \<open>An artifact whose fetch is answered and whose write finishes, and what its transfer does.\<close>

definition transfers :: "env \<Rightarrow> init_data \<Rightarrow> file_entry \<Rightarrow> bool" where
  "transfers en d f \<longleftrightarrow>
     \<not> isl (artifact_reply en (artifact_url d f)) \<and> write_error en (artifact_path f) = None"

definition transfer_effects :: "env \<Rightarrow> init_data \<Rightarrow> file_entry \<Rightarrow> event list" where
  "transfer_effects en d f =
     [Get_artifact (artifact_url d f),
      Write_file (artifact_path f)
        (case artifact_reply en (artifact_url d f) of Inl e \<Rightarrow> [] | Inr body \<Rightarrow> body)]"

text \<open>
  The setup went through: the init request was answered with \<open>d\<close>, the audio source gave
  the stream and the name, the upload and the start request succeeded.
\<close>

definition started :: "env \<Rightarrow> world \<Rightarrow> init_data \<Rightarrow> audio_stream \<Rightarrow> string \<Rightarrow> bool" where
  "started en w d stream name \<longleftrightarrow>
     init_reply en = Inr d \<and> fst (getAudioStream en w) = Inr (stream, name)
     \<and> \<not> isl (upload_reply en) \<and> \<not> isl (start_reply en)"

text \<open>The client after a successful init.\<close>

definition client_of :: "init_data \<Rightarrow> client" where
  "client_of d =
     \<lparr>jobId = Some (job_id d), inputStoragePath = Some (input_storage_path d),
      outputStoragePath = Some (output_storage_path d)\<rparr>"

fun is_console_error :: "event \<Rightarrow> bool" where
  "is_console_error (Console_error l) = True"
| "is_console_error e = False"

text \<open>No error output at all, and: once there is error output, nothing but error output follows.\<close>

definition quiet :: "event list \<Rightarrow> bool" where
  "quiet evs = list_all (\<lambda>e. \<not> is_console_error e) evs"

definition errors_last :: "event list \<Rightarrow> bool" where
  "errors_last evs = list_all is_console_error (dropWhile (\<lambda>e. \<not> is_console_error e) evs)"

text \<open>The world after a status request that was answered with \<open>r\<close>.\<close>

definition answered :: "client \<Rightarrow> status_response \<Rightarrow> world \<Rightarrow> world" where
  "answered c r w =
     emit (Console_log (L_current_job_status (job_state r)))
       ((emit (Get_status (BASE_URL @ ''job/'' @ js_str (jobId c) @ ''/status''))
           (emit (Console_log L_checking) w))\<lparr>w_polls := Suc (w_polls w)\<rparr>)"


text \<open>
  For the proofs: the second world has the files and directories of the first; it is the
  first after \<open>j\<close> loop turns that went on.
\<close>

definition same_disk :: "world \<Rightarrow> world \<Rightarrow> bool" where
  "same_disk w w1 \<longleftrightarrow> w_files w1 = w_files w \<and> w_dirs w1 = w_dirs w"

definition polled :: "client \<Rightarrow> nat \<Rightarrow> nat \<Rightarrow> world \<Rightarrow> world \<Rightarrow> bool" where
  "polled c itv j w w1 \<longleftrightarrow>
     effects w1 = effects w @
       concat (replicate j
         [Get_status (BASE_URL @ ''job/'' @ js_str (jobId c) @ ''/status''), Sleep itv])
     \<and> w_polls w1 = w_polls w + j \<and> same_disk w w1"

text \<open>
  Two relations for the proofs: the second world continues the trace of the first, without
  error output, or with error output only at the end.
\<close>

definition went_quietly :: "world \<Rightarrow> world \<Rightarrow> bool" where
  "went_quietly w w1 \<longleftrightarrow> (\<exists>evs. w_trace w1 = w_trace w @ evs \<and> quiet evs)"


subsection \<open>Sample runs\<close>

definition world0 :: world where
  "world0 = \<lparr>w_trace = [], w_files = (\<lambda>p. None), w_dirs = {}, w_polls = 0\<rparr>"

definition sample_job :: init_data where
  "sample_job =
     \<lparr>job_id = ''job-1'', input_storage_path = ''https://store/in'',
      output_storage_path = ''https://store/out''\<rparr>"

definition sample_client :: client where
  "sample_client =
     \<lparr>jobId = Some ''job-1'', inputStoragePath = Some ''https://store/in'',
      outputStoragePath = Some ''https://store/out''\<rparr>"

definition running :: status_response where
  "running = \<lparr>job_state = ''Running'', error_message = None\<rparr>"

definition completed :: status_response where
  "completed = \<lparr>job_state = ''Completed'', error_message = None\<rparr>"

definition failed_bad_audio :: status_response where
  "failed_bad_audio = \<lparr>job_state = ''Failed'', error_message = Some ''bad audio''\<rparr>"

text \<open>Every step succeeds and the job never leaves \<open>Running\<close>.\<close>

definition env_running :: env where
  "env_running =
     \<lparr>audio_source = ''https://example.com/audio/clip.wav'',
      init_reply = Inr sample_job,
      source_reply = Inr ''RIFF'',
      upload_reply = Inr (),
      start_reply = Inr (),
      status_script = (\<lambda>k. Inr running),
      listing_reply = Inr [\<lparr>entry_name = ''a.json''\<rparr>, \<lparr>entry_name = ''b.txt''\<rparr>],
      artifact_reply =
        (\<lambda>u. if u = ''https://store/out/a.json'' then Inr ''{}''
             else if u = ''https://store/out/b.txt'' then Inr ''text''
             else Inl (JsError ''Request failed with status code 404'' (Some ''not found''))),
      mkdir_error = None,
      write_error = (\<lambda>p. None)\<rparr>"

definition env_failed :: env where
  "env_failed = env_running\<lparr>status_script := (\<lambda>k. Inr failed_bad_audio)\<rparr>"

definition env_completing :: env where
  "env_completing =
     env_running\<lparr>status_script := (\<lambda>k. if k < 2 then Inr running else Inr completed)\<rparr>"

definition env_init_down :: env where
  "env_init_down = env_running\<lparr>init_reply := Inl (JsError ''Network Error'' None)\<rparr>"



definition env_local :: env where
  "env_local = env_running\<lparr>audio_source := ''recordings/clip.wav''\<rparr>"

text \<open>
  One step fails and every other succeeds: the upload, the start request, the second status
  request; and, for a job that completes at the third status request, the creation of the
  output directory, the listing, the write of the second artifact.
\<close>

definition env_upload_down :: env where
  "env_upload_down = env_running\<lparr>upload_reply := Inl (JsError ''Network Error'' None)\<rparr>"

definition env_start_down :: env where
  "env_start_down = env_running\<lparr>start_reply := Inl (JsError ''Network Error'' None)\<rparr>"

definition env_status_down :: env where
  "env_status_down =
     env_running\<lparr>status_script :=
       (\<lambda>k. if k < 1 then Inr running else Inl (JsError ''Network Error'' None))\<rparr>"

definition env_mkdir_denied :: env where
  "env_mkdir_denied = env_completing\<lparr>mkdir_error := Some (JsError ''EACCES'' None)\<rparr>"

definition env_listing_down :: env where
  "env_listing_down = env_completing\<lparr>listing_reply := Inl (JsError ''Network Error'' None)\<rparr>"

definition env_disk_full :: env where
  "env_disk_full =
     env_completing\<lparr>write_error :=
       (\<lambda>p. if p = ''./output/b.txt'' then Some (JsError ''ENOSPC'' None) else None)\<rparr>"

text \<open>A runtime that computes with the reals themselves.\<close>

definition exact_runtime :: runtime where
  "exact_runtime =
     \<lparr>number_divide = (\<lambda>a b. a / b),
      number_toString = (\<lambda>i. if i < 0 then CHR ''-'' # decimal (nat (- i)) else decimal (nat i))\<rparr>"

definition sample_response :: dg_response where
  "sample_response =
     \<lparr>resp_utterances =
        [\<lparr>u_start = 0.4, u_end = 3661.5, u_speaker = 0, u_transcript = ''hello''\<rparr>,
         \<lparr>u_start = 3661.5, u_end = 7325, u_speaker = 12, u_transcript = ''bye''\<rparr>],
      resp_metadata = Some \<lparr>md_language = Some \<lparr>lang_code = Some ''ta''\<rparr>\<rparr>\<rparr>"

section \<open>Proofs\<close>

subsection \<open>Traces\<close>

lemma emit_fields [simp]:
  "w_trace (emit e w) = w_trace w @ [e]"
  "w_files (emit e w) = w_files w"
  "w_dirs (emit e w) = w_dirs w"
  "w_polls (emit e w) = w_polls w"
  by (simp_all add: emit_def)

lemma existsSync_emit [simp]: "existsSync (emit e w) p = existsSync w p"
  by (simp add: existsSync_def)

lemma status_calls_simps [simp]:
  "status_calls (emit e w) = status_calls w + (if is_status_call e then 1 else 0)"
  "status_calls (w\<lparr>w_polls := n\<rparr>) = status_calls w"
  "status_calls (w\<lparr>w_files := f\<rparr>) = status_calls w"
  "status_calls (w\<lparr>w_dirs := d\<rparr>) = status_calls w"
  by (simp_all add: status_calls_def)

lemma sleeps_simps [simp]:
  "sleeps (emit e w) = sleeps w @ (if is_sleep e then [e] else [])"
  "sleeps (w\<lparr>w_polls := n\<rparr>) = sleeps w"
  "sleeps (w\<lparr>w_files := f\<rparr>) = sleeps w"
  "sleeps (w\<lparr>w_dirs := d\<rparr>) = sleeps w"
  by (simp_all add: sleeps_def)

lemma download_events_simps [simp]:
  "download_events (emit e w) = download_events w @ (if is_download_event e then [e] else [])"
  "download_events (w\<lparr>w_polls := n\<rparr>) = download_events w"
  "download_events (w\<lparr>w_files := f\<rparr>) = download_events w"
  "download_events (w\<lparr>w_dirs := d\<rparr>) = download_events w"
  by (simp_all add: download_events_def)

lemma artifact_events_simps [simp]:
  "artifact_events (emit e w) = artifact_events w @ (if is_artifact_event e then [e] else [])"
  "artifact_events (w\<lparr>w_polls := n\<rparr>) = artifact_events w"
  "artifact_events (w\<lparr>w_files := f\<rparr>) = artifact_events w"
  "artifact_events (w\<lparr>w_dirs := d\<rparr>) = artifact_events w"
  by (simp_all add: artifact_events_def)

text \<open>The definitions a sample run unfolds.\<close>

lemmas run_defs =
  main_def main_with_def main_body_def monitor_and_download_def poll_loop.simps
  initializeJob_def getAudioStream_def uploadFile_def startJob_def checkJobStatus_def
  downloadResults_def download_try_def ensure_destination_def
  existsSync_def startsWith_def inferred_name_def
  emit_def Let_def new_client_def js_str_def BASE_URL_def DESTINATION_DIR_def
  maxAttempts_def interval_def
  env_running_def env_failed_def env_completing_def env_init_down_def env_local_def
  world0_def sample_client_def sample_job_def running_def completed_def failed_bad_audio_def
  status_calls_def sleeps_def download_events_def artifact_events_def exit_status_def

lemma non_terminal_running [simp]: "non_terminal (Inr running)"
  by (simp add: non_terminal_def running_def)

subsection \<open>One turn of the polling loop\<close>

lemma checkJobStatus_answered:
  "status_script en (w_polls w) = Inr r \<Longrightarrow> checkJobStatus en c w = (Inr r, answered c r w)"
  by (simp add: checkJobStatus_def answered_def Let_def)

lemma answered_fields [simp]:
  "w_trace (answered c r w) = w_trace w @
     [Console_log L_checking,
      Get_status (BASE_URL @ ''job/'' @ js_str (jobId c) @ ''/status''),
      Console_log (L_current_job_status (job_state r))]"
  "w_polls (answered c r w) = Suc (w_polls w)"
  "w_files (answered c r w) = w_files w"
  "w_dirs (answered c r w) = w_dirs w"
  by (simp_all add: answered_def)

lemma answered_readers [simp]:
  "status_calls (answered c r w) = Suc (status_calls w)"
  "sleeps (answered c r w) = sleeps w"
  "download_events (answered c r w) = download_events w"
  "artifact_events (answered c r w) = artifact_events w"
  by (simp_all add: answered_def)

lemma poll_loop_exhausted:
  "\<not> attempts < maxA \<Longrightarrow> poll_loop maxA itv en c status attempts w = (Loop_done status, w)"
  by (simp add: poll_loop.simps)

lemma poll_loop_completed:
  assumes "attempts < maxA" and "status_script en (w_polls w) = Inr r"
    and "job_state r = ''Completed''"
  shows "poll_loop maxA itv en c status attempts w =
           (Loop_done ''Completed'', emit (Console_log L_job_completed) (answered c r w))"
  using assms by (subst poll_loop.simps) (simp add: checkJobStatus_answered Let_def)

lemma poll_loop_failed:
  assumes "attempts < maxA" and "status_script en (w_polls w) = Inr r"
    and "job_state r = ''Failed''"
  shows "poll_loop maxA itv en c status attempts w =
           (Loop_returned,
            emit (Console_log (L_job_error (error_message r)))
              (emit (Console_log L_job_failed) (answered c r w)))"
  using assms by (subst poll_loop.simps) (simp add: checkJobStatus_answered Let_def)


lemma poll_loop_continue:
  assumes "attempts < maxA" and "status_script en (w_polls w) = Inr r"
    and "job_state r \<noteq> ''Completed''" and "job_state r \<noteq> ''Failed''"
  shows "poll_loop maxA itv en c status attempts w =
           poll_loop maxA itv en c (job_state r) (Suc attempts)
             (emit (Sleep itv)
                (emit (Console_log (L_current_status (job_state r) (Suc attempts) maxA))
                   (answered c r w)))"
  using assms by (subst poll_loop.simps) (simp add: checkJobStatus_answered Let_def)

text \<open>
  A stretch of replies that keep the loop going: one request and one sleep for each, and
  nothing else.
\<close>

lemma poll_loop_skip:
  assumes "\<forall>k<j. non_terminal (status_script en (w_polls w + k))"
    and "attempts + j \<le> maxA"
  shows "\<exists>st w1. poll_loop maxA itv en c status attempts w =
                   poll_loop maxA itv en c st (attempts + j) w1
           \<and> (status \<noteq> ''Completed'' \<longrightarrow> st \<noteq> ''Completed'')
           \<and> status_calls w1 = status_calls w + j
           \<and> sleeps w1 = sleeps w @ replicate j (Sleep itv)
           \<and> download_events w1 = download_events w
           \<and> w_polls w1 = w_polls w + j"
  using assms
proof (induction j arbitrary: attempts status w)
  case 0
  show ?case by (rule exI [of _ status], rule exI [of _ w]) simp
next
  case (Suc j)
  from Suc.prems(1) have "non_terminal (status_script en (w_polls w))"
    by (metis add.right_neutral zero_less_Suc)
  then obtain r where r: "status_script en (w_polls w) = Inr r"
    "job_state r \<noteq> ''Completed''" "job_state r \<noteq> ''Failed''"
    by (auto simp: non_terminal_def split: sum.splits)
  from Suc.prems(2) have lt: "attempts < maxA" and le: "Suc attempts + j \<le> maxA" by arith+
  let ?w1 = "emit (Sleep itv)
               (emit (Console_log (L_current_status (job_state r) (Suc attempts) maxA))
                  (answered c r w))"
  have "\<forall>k<j. non_terminal (status_script en (w_polls ?w1 + k))"
    using Suc.prems(1) by auto
  from Suc.IH [OF this le, of "job_state r"]
  obtain st w2 where
    "poll_loop maxA itv en c (job_state r) (Suc attempts) ?w1 =
       poll_loop maxA itv en c st (Suc attempts + j) w2"
    "job_state r \<noteq> ''Completed'' \<longrightarrow> st \<noteq> ''Completed''"
    "status_calls w2 = status_calls ?w1 + j"
    "sleeps w2 = sleeps ?w1 @ replicate j (Sleep itv)"
    "download_events w2 = download_events ?w1" "w_polls w2 = w_polls ?w1 + j"
    by blast
  then show ?case
    using poll_loop_continue [OF lt r, of itv c status] r(2)
    by (intro exI [of _ st] exI [of _ w2]) (simp add: replicate_app_Cons_same)
qed

lemma poll_loop_all_non_terminal:
  assumes "\<forall>k<maxA. non_terminal (status_script en (w_polls w + k))"
  shows "\<exists>st w1. poll_loop maxA itv en c [] 0 w = (Loop_done st, w1)
           \<and> st \<noteq> ''Completed''
           \<and> status_calls w1 = status_calls w + maxA
           \<and> sleeps w1 = sleeps w @ replicate maxA (Sleep itv)
           \<and> download_events w1 = download_events w
           \<and> w_polls w1 = w_polls w + maxA"
  using poll_loop_skip [OF assms, of 0 maxA itv c "[]"]
  by (auto simp: poll_loop_exhausted)

subsection \<open>Splitting a path\<close>












subsection \<open>Decimal fields\<close>

lemma digit_char_read: "d < 10 \<Longrightarrow> is_digit (digit_char d) \<and> digit_value (digit_char d) = d"
proof -
  assume "d < 10"
  then have "d \<in> {0, 1, 2, 3, 4, 5, 6, 7, 8, 9}" by auto
  then show ?thesis
    by (auto simp: digit_char_def is_digit_def digit_value_def)
qed

lemma number_of_snoc: "number_of (s @ [c]) = 10 * number_of s + digit_value c"
  by (simp add: number_of_def)

lemma decimal_read: "list_all is_digit (decimal n) \<and> number_of (decimal n) = n"
proof (induction n rule: decimal.induct)
  case (1 n)
  show ?case
  proof (cases "n < 10")
    case True
    then show ?thesis
      by (subst (1 2) decimal.simps) (simp add: number_of_def digit_char_read)
  next
    case False
    with 1 have "list_all is_digit (decimal (n div 10))" "number_of (decimal (n div 10)) = n div 10"
      by simp_all
    with False show ?thesis
      by (subst (1 2) decimal.simps) (simp add: number_of_snoc digit_char_read)
  qed
qed

lemma decimal_small: "n < 10 \<Longrightarrow> decimal n = [digit_char n]"
  by (simp add: decimal.simps)

lemma decimal_two: "10 \<le> n \<Longrightarrow> n < 100 \<Longrightarrow> decimal n = two_digits n"
  by (subst decimal.simps) (simp add: decimal_small two_digits_def)

lemma decimal_nonempty: "decimal n \<noteq> []"
  by (subst decimal.simps) simp

lemma decimal_no_leading_zero: "0 < n \<Longrightarrow> hd (decimal n) \<noteq> CHR ''0''"
proof (induction n rule: decimal.induct)
  case (1 n)
  show ?case
  proof (cases "n < 10")
    case True
    with "1.prems" have "n \<in> {1, 2, 3, 4, 5, 6, 7, 8, 9}" by auto
    then show ?thesis by (subst decimal.simps) (auto simp: digit_char_def)
  next
    case False
    with 1 have "hd (decimal (n div 10)) \<noteq> CHR ''0''" by simp
    with False show ?thesis
      by (subst decimal.simps) (simp add: decimal_nonempty)
  qed
qed

lemma two_digits_read:
  "k < 100 \<Longrightarrow> list_all is_digit (two_digits k) \<and> number_of (two_digits k) = k"
  by (simp add: two_digits_def number_of_def digit_char_read)

lemma length_decimal_large: "10 \<le> n \<Longrightarrow> 2 \<le> length (decimal n)"
  by (subst decimal.simps) (simp add: Suc_le_eq decimal_nonempty)

lemma digit_char_0: "digit_char 0 = CHR ''0''"
  by (simp add: digit_char_def)

lemma padStart_two_digits: "n < 100 \<Longrightarrow> padStart 2 CHR ''0'' (decimal n) = two_digits n"
proof (cases "n < 10")
  case True
  then show ?thesis
    by (simp add: padStart_def decimal_small two_digits_def digit_char_0)
next
  case False
  assume "n < 100"
  with False have "decimal n = two_digits n" by (simp add: decimal_two)
  then show ?thesis by (simp add: padStart_def two_digits_def)
qed

lemma padStart_speaker:
  "padStart 2 CHR ''0'' (decimal n) = (if n < 10 then [CHR ''0'', digit_char n] else decimal n)"
proof (cases "n < 10")
  case True
  then show ?thesis by (simp add: padStart_def decimal_small)
next
  case False
  then have "2 \<le> length (decimal n)" by (simp add: length_decimal_large)
  with False show ?thesis by (simp add: padStart_def)
qed

lemma js_rem_nonneg: "0 \<le> a \<Longrightarrow> 0 < b \<Longrightarrow> js_rem a b = a mod b"
  by (simp add: js_rem_def)

lemma Math_round_nonneg: "0 \<le> t \<Longrightarrow> Math_round t = int (whole_seconds t)"
  by (simp add: Math_round_def whole_seconds_def)

lemma whole_seconds_nearest:
  "0 \<le> t \<Longrightarrow> real (whole_seconds t) - 1 / 2 \<le> t \<and> t < real (whole_seconds t) + 1 / 2"
  unfolding whole_seconds_def by (simp add: of_nat_nat) linarith

lemma whole_seconds_bound: "0 \<le> t \<Longrightarrow> t < 2 ^ 52 \<Longrightarrow> whole_seconds t < 2 ^ 53"
proof -
  assume t: "0 \<le> t" "t < 2 ^ 52"
  then have "\<lfloor>t + 1 / 2\<rfloor> \<le> 2 ^ 52"
    by (simp add: floor_le_iff) 
  then have "whole_seconds t \<le> 2 ^ 52" unfolding whole_seconds_def
    by (metis nat_le_iff of_nat_numeral of_nat_power)
  then show ?thesis by simp
qed


lemma floor_divide_runtime:
  assumes rt: "double_facts rt" and a: "0 \<le> a" "a < 2 ^ 42 * b" and b: "0 < b" "b \<le> 3600"
  shows "\<lfloor>number_divide rt (of_int a) (of_int b)\<rfloor> = a div b"
proof -
  define k where "k = a div b"
  define r where "r = a mod b"
  have ab: "a = k * b + r" and r: "0 \<le> r" "r < b"
    using b by (simp_all add: k_def r_def)
  have k0: "0 \<le> k" using a b by (simp add: k_def pos_imp_zdiv_nonneg_iff)
  have "k * b \<le> a" using ab r by simp
  with a(2) b have k42: "k < 2 ^ 42"
    by (metis le_less_trans mult_less_cancel_right_pos)
  show ?thesis
  proof (cases "r = 0")
    case True
    from k0 k42 have "\<bar>k\<bar> \<le> 2 ^ 53" by simp
    with rt b have "number_divide rt (of_int (k * b)) (of_int b) = of_int k"
      by (simp add: double_facts_def)
    with True ab show ?thesis by (simp add: k_def)
  next
    case False
    with r have r1: "1 \<le> r" by simp
    let ?q = "real_of_int a / real_of_int b"
    let ?d = "number_divide rt (of_int a) (of_int b)"
    have bpos: "0 < real_of_int b" using b by simp
    have q: "?q = real_of_int k + real_of_int r / real_of_int b"
      using bpos by (simp add: ab field_simps)
    have lo: "1 / 3600 \<le> real_of_int r / real_of_int b"
    proof -
      have "1 / 3600 \<le> 1 / real_of_int b" using b bpos by (simp add: field_simps)
      also have "\<dots> \<le> real_of_int r / real_of_int b"
        using r1 bpos by (simp add: divide_right_mono)
      finally show ?thesis .
    qed
    have hi: "real_of_int r / real_of_int b \<le> 1 - 1 / 3600"
    proof -
      have "real_of_int r \<le> real_of_int b - 1" using r by linarith
      then have "real_of_int r / real_of_int b \<le> (real_of_int b - 1) / real_of_int b"
        using bpos by (simp add: divide_right_mono)
      also have "\<dots> = 1 - 1 / real_of_int b" using bpos by (simp add: field_simps)
      also have "\<dots> \<le> 1 - 1 / 3600" using b bpos by (simp add: field_simps)
      finally show ?thesis .
    qed
    have "0 \<le> ?q" using a bpos by simp
    moreover have "?q < 2 ^ 42"
    proof -
      have "real_of_int a < 2 ^ 42 * real_of_int b"
        using a(2) by (metis of_int_less_iff of_int_mult of_int_numeral of_int_power)
      then show ?thesis using bpos by (simp add: field_simps)
    qed
    ultimately have "\<bar>?q\<bar> < 2 ^ 42" by simp
    moreover have "real_of_int b \<noteq> 0" using bpos by simp
    ultimately have e: "\<bar>?d - ?q\<bar> \<le> 1 / 4096"
      using rt unfolding double_facts_def by blast
    have e': "?d \<ge> ?q - 1 / 4096" "?d \<le> ?q + 1 / 4096" using e by linarith+
    define x where "x = real_of_int r / real_of_int b"
    from lo hi q e' have "1 / 3600 \<le> x" "x \<le> 1 - 1 / 3600"
      "?d \<ge> real_of_int k + x - 1 / 4096" "?d \<le> real_of_int k + x + 1 / 4096"
      unfolding x_def by simp_all
    then have "real_of_int k \<le> ?d" "?d < real_of_int k + 1" by linarith+
    moreover note dummy = TrueI
    ultimately have "\<lfloor>?d\<rfloor> = k" by (simp add: floor_unique)
    then show ?thesis by (simp add: k_def)
  qed
qed

lemma fmt_in_range:
  assumes rt: "double_facts rt" and t: "0 \<le> t" "t < 2 ^ 52"
  shows "fmt rt t = hms (whole_seconds t)"
proof -
  define n where "n = whole_seconds t"
  have n: "n < 2 ^ 53" unfolding n_def using t by (rule whole_seconds_bound)
  have s: "Math_round t = int n" unfolding n_def using t(1) by (rule Math_round_nonneg)
  have ts: "number_toString rt (int k) = decimal k" if "k < 2 ^ 53" for k
  proof -
    from that have "int k < 2 ^ 53"
      by (metis of_nat_less_iff of_nat_numeral of_nat_power)
    with rt show ?thesis by (simp add: double_facts_def)
  qed
  have "int n < 2 ^ 42 * 3600"
  proof -
    from n have "int n < 2 ^ 53" by (metis of_nat_less_iff of_nat_numeral of_nat_power)
    then show ?thesis by simp
  qed
  with rt have "\<lfloor>number_divide rt (of_int (int n)) (of_int 3600)\<rfloor> = int n div 3600"
    by (intro floor_divide_runtime) simp_all
  then have h: "\<lfloor>number_divide rt (of_int (int n)) 3600\<rfloor> = int (n div 3600)"
    by (simp add: zdiv_int)
  have r: "js_rem (int n) 3600 = int (n mod 3600)" "js_rem (int n) 60 = int (n mod 60)"
    by (simp_all add: js_rem_nonneg zmod_int)
  have "int (n mod 3600) < 2 ^ 42 * 60"
  proof -
    have "int (n mod 3600) < 3600" by simp
    then show ?thesis by simp
  qed
  with rt have "\<lfloor>number_divide rt (of_int (int (n mod 3600))) (of_int 60)\<rfloor> =
      int (n mod 3600) div 60"
    by (intro floor_divide_runtime) simp_all
  moreover have "int (n mod 3600) div 60 = int (n div 60 mod 60)"
  proof -
    have "n mod (60 * 60) = 60 * (n div 60 mod 60) + n mod 60" by (rule mod_mult2_eq)
    then have "n mod 3600 div 60 = n div 60 mod 60" by simp
    then have "int (n mod 3600 div 60) = int (n div 60 mod 60)" by (simp only:)
    then show ?thesis by (simp only: zdiv_int of_nat_numeral)
  qed
  ultimately
  have m: "\<lfloor>number_divide rt (of_int (int (n mod 3600))) 60\<rfloor> = int (n div 60 mod 60)"
    by simp
  have small: "n div 3600 < 2 ^ 53" "n div 60 mod 60 < 2 ^ 53" "n mod 60 < 2 ^ 53"
  proof -
    show "n div 3600 < 2 ^ 53" using n by (meson div_le_dividend le_less_trans)
    have "n div 60 mod 60 < 60" "n mod 60 < 60" by simp_all
    then show "n div 60 mod 60 < 2 ^ 53" "n mod 60 < 2 ^ 53" by simp_all
  qed
  note t = ts [OF small(1)] ts [OF small(2)] ts [OF small(3)]
  show ?thesis
    unfolding fmt_def Let_def s r h m n_def [symmetric] t
    by (simp add: hms_def padStart_two_digits)
qed

lemma speaker_label_tag:
  assumes "double_facts rt" and "u_speaker u < 2 ^ 53"
  shows "speaker_label rt u = speaker_tag (u_speaker u)"
proof -
  from assms(2) have "int (u_speaker u) < 2 ^ 53"
    by (metis of_nat_less_iff of_nat_numeral of_nat_power)
  with assms(1) have "number_toString rt (int (u_speaker u)) = decimal (u_speaker u)"
    by (simp add: double_facts_def)
  then show ?thesis by (simp add: speaker_label_def speaker_tag_def padStart_speaker)
qed

lemma join_lines: "join [CHR 0x0A] ls = lines_text ls"
proof (induction "[CHR 0x0A]" ls rule: join.induct)
  case 1
  show ?case by (simp add: lines_text_def)
next
  case (2 x)
  show ?case by (simp add: lines_text_def)
next
  case (3 x y ys)
  then show ?case by (simp add: lines_text_def butlast_append)
qed

lemma language_of_provided:
  "language_of resp = (case provided_code resp of Some c \<Rightarrow> c | None \<Rightarrow> ''hi'')"
  by (simp add: language_of_def provided_code_def split: option.splits)

lemma double_facts_exact_runtime: "double_facts exact_runtime"
  by (simp add: double_facts_def exact_runtime_def)

subsection \<open>The claims about the client\<close>

text \<open>
  C9. When \<open>initializeJob\<close> fails, the client is as it was before the call: no field of
  the job context has been assigned, and the failure is that of the init request.
\<close>

theorem initializeJob_failure_keeps_client:
  assumes "fst (initializeJob en c w) = Inl e"
  shows "fst (snd (initializeJob en c w)) = c \<and> init_reply en = Inl e"
  using assms by (auto simp: initializeJob_def Let_def split: sum.splits)

theorem initializeJob_failure_keeps_client_witness:
  "fst (initializeJob env_init_down new_client world0) = Inl (JsError ''Network Error'' None)
   \<and> fst (snd (initializeJob env_init_down new_client world0)) =
       \<lparr>jobId = None, inputStoragePath = None, outputStoragePath = None\<rparr>"
proof -
  have f: "fst (initializeJob env_init_down new_client world0) = Inl (JsError ''Network Error'' None)"
    by (simp add: initializeJob_def env_init_down_def env_running_def Let_def)
  from initializeJob_failure_keeps_client [OF f] f show ?thesis
    by (simp add: new_client_def)
qed




text \<open>
  C10. \<open>getAudioStream\<close> fetches the source remotely exactly when the specifier starts with
  \<open>http\<close>. Any other specifier is a local path: no request is made, the call throws the
  file-not-found error exactly when nothing exists at the path, and returns a reader on the
  path otherwise.
\<close>

theorem getAudioStream_source_kind:
  "((\<exists>rest. audio_source en = ''http'' @ rest) \<longleftrightarrow>
      w_trace (snd (getAudioStream en w)) = w_trace w @ [Get_source (audio_source en)])
   \<and> (\<not> (\<exists>rest. audio_source en = ''http'' @ rest) \<longrightarrow>
        w_trace (snd (getAudioStream en w)) = w_trace w
        \<and> fst (getAudioStream en w) =
            (if existsSync w (audio_source en)
             then Inr (File_reader (audio_source en), inferred_name (audio_source en))
             else Inl (JsError (''File not found: '' @ audio_source en) None)))"
proof -
  have p: "startsWith s ''http'' \<longleftrightarrow> (\<exists>rest. s = ''http'' @ rest)" for s
    unfolding startsWith_def
    by (metis append_eq_conv_conj)
  show ?thesis
    unfolding p [symmetric]
    by (auto simp: getAudioStream_def Let_def split: sum.splits)
qed

theorem getAudioStream_source_kind_witness:
  "\<not> (\<exists>rest. audio_source env_local = ''http'' @ rest)
   \<and> fst (getAudioStream env_local world0) =
       Inl (JsError ''File not found: recordings/clip.wav'' None)
   \<and> fst (getAudioStream env_local (world0\<lparr>w_files := [''recordings/clip.wav'' \<mapsto> ''RIFF'']\<rparr>)) =
       Inr (File_reader ''recordings/clip.wav'', ''clip.wav'')
   \<and> w_trace (snd (getAudioStream env_running world0)) =
       [Get_source ''https://example.com/audio/clip.wav'']"
proof -
  have l: "\<not> (\<exists>rest. audio_source env_local = ''http'' @ rest)"
    by (simp add: env_local_def env_running_def)
  have r: "\<exists>rest. audio_source env_running = ''http'' @ rest"
    by (simp add: env_running_def)
  have n: "inferred_name ''recordings/clip.wav'' = ''clip.wav''"
    by (simp add: inferred_name_def)
  from l r n
    getAudioStream_source_kind [of env_local world0]
    getAudioStream_source_kind
      [of env_local "world0\<lparr>w_files := [''recordings/clip.wav'' \<mapsto> ''RIFF'']\<rparr>"]
    getAudioStream_source_kind [of env_running world0]
  show ?thesis
    by (simp add: existsSync_def world0_def env_local_def env_running_def)
qed

subsection \<open>The claim about the consumer\<close>

text \<open>
  C8. For a reply whose utterances have times from 0 up to \<open>2^52\<close> seconds and speaker
  indices below \<open>2^53\<close>, and a runtime with double arithmetic, the consumer prints one line
  \<open>[H:MM:SS -> H:MM:SS] SPEAKERnn: text\<close> per utterance, the lines separated by line feeds,
  one record of the same four fields per utterance, and the language code of the reply,
  or \<open>hi\<close> when the reply has none. The times are rounded to the nearest whole second; the
  hours are in decimal notation, the minutes and seconds are two decimal digits each with
  a value below 60, and the speaker index is padded with a zero to two digits.
\<close>

theorem transcriber_output_format:
  assumes "double_facts rt"
    and "\<forall>u\<in>set (resp_utterances resp).
           0 \<le> u_start u \<and> u_start u < 2 ^ 52 \<and> 0 \<le> u_end u \<and> u_end u < 2 ^ 52
           \<and> u_speaker u < 2 ^ 53"
  shows "transcriber rt (Inr resp) =
           Printed
             \<lparr>raw_transcript = lines_text (map formatted_line (resp_utterances resp)),
              transcript = map formatted_entry (resp_utterances resp),
              language = (case provided_code resp of Some c \<Rightarrow> c | None \<Rightarrow> ''hi'')\<rparr>
         \<and> (\<forall>u\<in>set (resp_utterances resp).
               real (whole_seconds (u_start u)) - 1 / 2 \<le> u_start u
               \<and> u_start u < real (whole_seconds (u_start u)) + 1 / 2
               \<and> real (whole_seconds (u_end u)) - 1 / 2 \<le> u_end u
               \<and> u_end u < real (whole_seconds (u_end u)) + 1 / 2)
         \<and> (\<forall>n. list_all is_digit (decimal n) \<and> number_of (decimal n) = n
                \<and> (0 < n \<longrightarrow> hd (decimal n) \<noteq> CHR ''0''))
         \<and> (\<forall>n. length (two_digits (n div 60 mod 60)) = 2
                \<and> list_all is_digit (two_digits (n div 60 mod 60))
                \<and> number_of (two_digits (n div 60 mod 60)) = n div 60 mod 60
                \<and> n div 60 mod 60 < 60
                \<and> length (two_digits (n mod 60)) = 2
                \<and> list_all is_digit (two_digits (n mod 60))
                \<and> number_of (two_digits (n mod 60)) = n mod 60
                \<and> n mod 60 < 60)"
proof -
  have m1: "map (raw_line rt) (resp_utterances resp) = map formatted_line (resp_utterances resp)"
    using assms
    by (simp add: raw_line_def formatted_line_def fmt_in_range speaker_label_tag)
  have m2: "map (entry_of rt) (resp_utterances resp) = map formatted_entry (resp_utterances resp)"
    using assms
    by (simp add: entry_of_def formatted_entry_def fmt_in_range speaker_label_tag)
  have 1: "transcriber rt (Inr resp) =
           Printed
             \<lparr>raw_transcript = lines_text (map formatted_line (resp_utterances resp)),
              transcript = map formatted_entry (resp_utterances resp),
              language = (case provided_code resp of Some c \<Rightarrow> c | None \<Rightarrow> ''hi'')\<rparr>"
    by (simp add: transcriber_def Let_def language_of_provided join_lines m1 m2
        del: map_eq_conv)
  have 2: "\<forall>u\<in>set (resp_utterances resp).
               real (whole_seconds (u_start u)) - 1 / 2 \<le> u_start u
               \<and> u_start u < real (whole_seconds (u_start u)) + 1 / 2
               \<and> real (whole_seconds (u_end u)) - 1 / 2 \<le> u_end u
               \<and> u_end u < real (whole_seconds (u_end u)) + 1 / 2"
    using assms(2) whole_seconds_nearest by blast
  have 3: "\<forall>n. list_all is_digit (decimal n) \<and> number_of (decimal n) = n
                \<and> (0 < n \<longrightarrow> hd (decimal n) \<noteq> CHR ''0'')"
    by (simp add: decimal_read decimal_no_leading_zero)
  have k: "length (two_digits k) = 2 \<and> list_all is_digit (two_digits k)
      \<and> number_of (two_digits k) = k \<and> k < 60" if "k < 60" for k
    using that two_digits_read [of k] by (simp add: two_digits_def)
  have 4: "\<forall>n. length (two_digits (n div 60 mod 60)) = 2
                \<and> list_all is_digit (two_digits (n div 60 mod 60))
                \<and> number_of (two_digits (n div 60 mod 60)) = n div 60 mod 60
                \<and> n div 60 mod 60 < 60
                \<and> length (two_digits (n mod 60)) = 2
                \<and> list_all is_digit (two_digits (n mod 60))
                \<and> number_of (two_digits (n mod 60)) = n mod 60
                \<and> n mod 60 < 60"
  proof
    fix n :: nat
    have "n div 60 mod 60 < 60" "n mod 60 < 60" by simp_all
    from k [OF this(1)] k [OF this(2)]
    show "length (two_digits (n div 60 mod 60)) = 2
                \<and> list_all is_digit (two_digits (n div 60 mod 60))
                \<and> number_of (two_digits (n div 60 mod 60)) = n div 60 mod 60
                \<and> n div 60 mod 60 < 60
                \<and> length (two_digits (n mod 60)) = 2
                \<and> list_all is_digit (two_digits (n mod 60))
                \<and> number_of (two_digits (n mod 60)) = n mod 60
                \<and> n mod 60 < 60"
      by blast
  qed
  from 1 2 3 4 show ?thesis by blast
qed

theorem transcriber_output_format_witness:
  "double_facts exact_runtime
   \<and> list_all (\<lambda>u. 0 \<le> u_start u \<and> u_start u < 2 ^ 52 \<and> 0 \<le> u_end u \<and> u_end u < 2 ^ 52
                  \<and> u_speaker u < 2 ^ 53) (resp_utterances sample_response)
   \<and> transcriber exact_runtime (Inr sample_response) =
       Printed
         \<lparr>raw_transcript =
            ''[0:00:00 -> 1:01:02] SPEAKER00: hello'' @ [CHR 0x0A]
              @ ''[1:01:02 -> 2:02:05] SPEAKER12: bye'',
          transcript =
            [\<lparr>t_start = ''0:00:00'', t_end = ''1:01:02'', t_text = ''hello'',
              t_speaker = ''SPEAKER00''\<rparr>,
             \<lparr>t_start = ''1:01:02'', t_end = ''2:02:05'', t_text = ''bye'',
              t_speaker = ''SPEAKER12''\<rparr>],
          language = ''ta''\<rparr>"
proof -
  have h: "\<forall>u\<in>set (resp_utterances sample_response).
           0 \<le> u_start u \<and> u_start u < 2 ^ 52 \<and> 0 \<le> u_end u \<and> u_end u < 2 ^ 52
           \<and> u_speaker u < 2 ^ 53"
    by (simp add: sample_response_def)
  have a: "whole_seconds (2 / 5) = 0" "whole_seconds (7323 / 2) = 3662"
    "whole_seconds 7325 = 7325"
    by (simp_all add: whole_seconds_def)
  have b: "hms 0 = ''0:00:00''" "hms 3662 = ''1:01:02''" "hms 7325 = ''2:02:05''"
    by (simp_all add: hms_def two_digits_def digit_char_def decimal.simps)
  have c: "speaker_tag 0 = ''SPEAKER00''" "speaker_tag 12 = ''SPEAKER12''"
    by (simp_all add: speaker_tag_def digit_char_def decimal.simps)
  from transcriber_output_format [OF double_facts_exact_runtime h] h
    double_facts_exact_runtime
  show ?thesis
    by (simp add: sample_response_def formatted_line_def formatted_entry_def provided_code_def
        lines_text_def a b c)
qed

subsection \<open>The claims about the polling loop\<close>

text \<open>
  C2 (as amended). When none of the first \<open>maxA\<close> status replies is \<open>Completed\<close> or \<open>Failed\<close>,
  the loop makes exactly \<open>maxA\<close> status requests; then the orchestrator logs that the job
  did not complete and returns from \<open>main\<close> without a download. Nothing is thrown.
\<close>

theorem poll_ceiling_returns:
  assumes "\<forall>k<maxA. non_terminal (status_script en (w_polls w + k))"
  shows "fst (monitor_and_download maxA itv en c w) = Inr ()
         \<and> status_calls (snd (monitor_and_download maxA itv en c w)) = status_calls w + maxA
         \<and> last (w_trace (snd (monitor_and_download maxA itv en c w))) =
             Console_log L_did_not_complete
         \<and> download_events (snd (monitor_and_download maxA itv en c w)) = download_events w"
proof -
  from poll_loop_all_non_terminal [OF assms, of itv c]
  obtain st w1 where "poll_loop maxA itv en c [] 0 w = (Loop_done st, w1)"
    "st \<noteq> ''Completed''" "status_calls w1 = status_calls w + maxA"
    "download_events w1 = download_events w"
    by blast
  then show ?thesis by (simp add: monitor_and_download_def)
qed

theorem poll_ceiling_returns_witness:
  "fst (monitor_and_download 3 interval env_running sample_client world0) = Inr ()
   \<and> status_calls (snd (monitor_and_download 3 interval env_running sample_client world0)) = 3
   \<and> last (w_trace (snd (monitor_and_download 3 interval env_running sample_client world0))) =
       Console_log L_did_not_complete
   \<and> download_events (snd (monitor_and_download 3 interval env_running sample_client world0)) = []"
proof -
  have "\<forall>k<3. non_terminal (status_script env_running (w_polls world0 + k))"
    by (simp add: env_running_def)
  from poll_ceiling_returns [OF this, of interval sample_client] show ?thesis
    by (simp add: status_calls_def download_events_def world0_def)
qed


text \<open>
  The claim as stated fails: with a ceiling of 3 and every reply \<open>Running\<close> there are three
  status requests, and then a normal return; no error reaches the catch block of \<open>main\<close>.
\<close>

theorem poll_ceiling_raises_counterexample:
  "status_calls (snd (monitor_and_download 3 interval env_running sample_client world0)) = 3
   \<and> \<not> isl (fst (monitor_and_download 3 interval env_running sample_client world0))
   \<and> fst (main_with 3 interval env_running world0) = Returned"
proof -
  have m: "monitor_and_download 3 interval env_running sample_client world0 =
     (Inr (),
      \<lparr>w_trace =
         [Console_log L_checking,
          Get_status ''https://api.sarvam.ai/call-analytics/job/job-1/status'',
          Console_log (L_current_job_status ''Running''),
          Console_log (L_current_status ''Running'' 1 3), Sleep 10000,
          Console_log L_checking,
          Get_status ''https://api.sarvam.ai/call-analytics/job/job-1/status'',
          Console_log (L_current_job_status ''Running''),
          Console_log (L_current_status ''Running'' 2 3), Sleep 10000,
          Console_log L_checking,
          Get_status ''https://api.sarvam.ai/call-analytics/job/job-1/status'',
          Console_log (L_current_job_status ''Running''),
          Console_log (L_current_status ''Running'' 3 3), Sleep 10000,
          Console_log L_did_not_complete],
       w_files = (\<lambda>p. None), w_dirs = {}, w_polls = 3\<rparr>)"
    by (simp add: run_defs)
  have r: "fst (main_with 3 interval env_running world0) = Returned"
    by (simp add: run_defs)
  show ?thesis unfolding m using r by (simp add: status_calls_def)
qed


text \<open>
  C3 (as amended). When the first status reply is \<open>Failed\<close>, the loop makes that one status
  request and no other; the orchestrator logs the failure and the error message of the
  reply, and returns from \<open>main\<close> without sleeping and without a download. Nothing is thrown.
\<close>

theorem poll_failed_first_returns:
  assumes "status_script en (w_polls w) = Inr r" and "job_state r = ''Failed''" and "0 < maxA"
  shows "fst (monitor_and_download maxA itv en c w) = Inr ()
         \<and> w_trace (snd (monitor_and_download maxA itv en c w)) = w_trace w @
             [Console_log L_checking,
              Get_status (BASE_URL @ ''job/'' @ js_str (jobId c) @ ''/status''),
              Console_log (L_current_job_status ''Failed''),
              Console_log L_job_failed,
              Console_log (L_job_error (error_message r))]
         \<and> status_calls (snd (monitor_and_download maxA itv en c w)) = status_calls w + 1
         \<and> sleeps (snd (monitor_and_download maxA itv en c w)) = sleeps w
         \<and> download_events (snd (monitor_and_download maxA itv en c w)) = download_events w"
  using assms poll_loop_failed [OF assms(3) assms(1) assms(2), of itv c "[]"]
  by (simp add: monitor_and_download_def)

theorem poll_failed_first_returns_witness:
  "fst (monitor_and_download maxAttempts interval env_failed sample_client world0) = Inr ()
   \<and> w_trace (snd (monitor_and_download maxAttempts interval env_failed sample_client world0)) =
       [Console_log L_checking,
        Get_status ''https://api.sarvam.ai/call-analytics/job/job-1/status'',
        Console_log (L_current_job_status ''Failed''),
        Console_log L_job_failed,
        Console_log (L_job_error (Some ''bad audio''))]
   \<and> status_calls (snd (monitor_and_download maxAttempts interval env_failed sample_client world0)) = 1"
proof -
  have a: "status_script env_failed (w_polls world0) = Inr failed_bad_audio"
    by (simp add: env_failed_def)
  have b: "job_state failed_bad_audio = ''Failed''" by (simp add: failed_bad_audio_def)
  have c: "0 < maxAttempts" by (simp add: maxAttempts_def)
  from poll_failed_first_returns [OF a b c, of interval sample_client] show ?thesis
    by (simp add: world0_def failed_bad_audio_def BASE_URL_def js_str_def sample_client_def
        status_calls_def)
qed

text \<open>
  The claim as stated fails: with \<open>Failed\<close> as the first reply nothing is thrown, and \<open>main\<close>
  returns.
\<close>

theorem poll_failed_raises_counterexample:
  "\<not> isl (fst (monitor_and_download maxAttempts interval env_failed sample_client world0))
   \<and> fst (main env_failed world0) = Returned"
proof -
  have m: "fst (monitor_and_download maxAttempts interval env_failed sample_client world0) = Inr ()"
    by (simp add: run_defs)
  have r: "fst (main env_failed world0) = Returned"
    by (simp add: run_defs)
  show ?thesis unfolding m using r by simp
qed

text \<open>
  C4 (as amended). A turn of the loop that sees a state other than \<open>Completed\<close> and \<open>Failed\<close>
  always sleeps for the interval, and the attempt count is tested only after that sleep,
  at the head of the next turn. So with the ceiling at \<open>maxA\<close>, a run of \<open>maxA\<close> such replies
  sleeps \<open>maxA\<close> times, the last time after the last permitted attempt.
\<close>

theorem poll_sleeps_every_turn:
  "(attempts < maxA \<and> status_script en (w_polls w) = Inr r
      \<and> job_state r \<noteq> ''Completed'' \<and> job_state r \<noteq> ''Failed'' \<longrightarrow>
      (\<exists>w1. poll_loop maxA itv en c status attempts w =
               (if Suc attempts < maxA
                then poll_loop maxA itv en c (job_state r) (Suc attempts) w1
                else (Loop_done (job_state r), w1))
         \<and> w_trace w1 = w_trace w @
              [Console_log L_checking,
               Get_status (BASE_URL @ ''job/'' @ js_str (jobId c) @ ''/status''),
               Console_log (L_current_job_status (job_state r)),
               Console_log (L_current_status (job_state r) (Suc attempts) maxA),
               Sleep itv]))
   \<and> ((\<forall>k<maxA. non_terminal (status_script en (w_polls w + k))) \<longrightarrow>
        (\<exists>st. fst (poll_loop maxA itv en c [] 0 w) = Loop_done st)
        \<and> status_calls (snd (poll_loop maxA itv en c [] 0 w)) = status_calls w + maxA
        \<and> sleeps (snd (poll_loop maxA itv en c [] 0 w)) = sleeps w @ replicate maxA (Sleep itv))"
proof (intro conjI impI)
  let ?w1 = "emit (Sleep itv)
               (emit (Console_log (L_current_status (job_state r) (Suc attempts) maxA))
                  (answered c r w))"
  assume a: "attempts < maxA \<and> status_script en (w_polls w) = Inr r
      \<and> job_state r \<noteq> ''Completed'' \<and> job_state r \<noteq> ''Failed''"
  then have "poll_loop maxA itv en c status attempts w =
               poll_loop maxA itv en c (job_state r) (Suc attempts) ?w1"
    by (simp add: poll_loop_continue)
  then have "poll_loop maxA itv en c status attempts w =
               (if Suc attempts < maxA
                then poll_loop maxA itv en c (job_state r) (Suc attempts) ?w1
                else (Loop_done (job_state r), ?w1))"
    by (simp add: poll_loop_exhausted)
  then show "\<exists>w1. poll_loop maxA itv en c status attempts w =
               (if Suc attempts < maxA
                then poll_loop maxA itv en c (job_state r) (Suc attempts) w1
                else (Loop_done (job_state r), w1))
         \<and> w_trace w1 = w_trace w @
              [Console_log L_checking,
               Get_status (BASE_URL @ ''job/'' @ js_str (jobId c) @ ''/status''),
               Console_log (L_current_job_status (job_state r)),
               Console_log (L_current_status (job_state r) (Suc attempts) maxA),
               Sleep itv]"
    by (intro exI [of _ ?w1]) simp
next
  assume a: "\<forall>k<maxA. non_terminal (status_script en (w_polls w + k))"
  from poll_loop_all_non_terminal [OF a, of itv c]
  obtain st w1 where p: "poll_loop maxA itv en c [] 0 w = (Loop_done st, w1)"
    "status_calls w1 = status_calls w + maxA"
    "sleeps w1 = sleeps w @ replicate maxA (Sleep itv)"
    by blast
  from p show "\<exists>st. fst (poll_loop maxA itv en c [] 0 w) = Loop_done st" by simp
  from p show "status_calls (snd (poll_loop maxA itv en c [] 0 w)) = status_calls w + maxA"
    by simp
  from p show "sleeps (snd (poll_loop maxA itv en c [] 0 w)) =
      sleeps w @ replicate maxA (Sleep itv)"
    by simp
qed

theorem poll_sleeps_every_turn_witness:
  "status_calls (snd (poll_loop 3 interval env_running sample_client [] 0 world0)) = 3
   \<and> sleeps (snd (poll_loop 3 interval env_running sample_client [] 0 world0)) =
       [Sleep interval, Sleep interval, Sleep interval]"
proof -
  have "\<forall>k<3. non_terminal (status_script env_running (w_polls world0 + k))"
    by (simp add: env_running_def)
  with poll_sleeps_every_turn [of 0 3 env_running world0 running interval sample_client "[]"]
  show ?thesis
    by (simp add: status_calls_def sleeps_def world0_def numeral_3_eq_3)
qed

text \<open>
  The claim as stated fails: with a ceiling of 3 and every reply \<open>Running\<close> the loop sleeps
  three times, not twice.
\<close>

theorem poll_last_sleep_counterexample:
  "length (sleeps (snd (poll_loop 3 interval env_running sample_client [] 0 world0))) \<noteq> 3 - 1"
proof -
  have "sleeps (snd (poll_loop 3 interval env_running sample_client [] 0 world0)) =
          [Sleep 10000, Sleep 10000, Sleep 10000]"
    by (simp add: run_defs)
  then show ?thesis by simp
qed

text \<open>
  C5. For the replies \<open>Running\<close>, \<open>Running\<close>, \<open>Completed\<close> (and a ceiling of at least three
  attempts) the loop makes exactly three status requests, leaves through the \<open>Completed\<close>
  branch of the third, and the orchestrator goes on to \<open>downloadResults\<close>.
\<close>

theorem poll_running_running_completed:
  assumes "3 \<le> maxA"
    and "status_script en (w_polls w) = Inr r0" and "job_state r0 = ''Running''"
    and "status_script en (w_polls w + 1) = Inr r1" and "job_state r1 = ''Running''"
    and "status_script en (w_polls w + 2) = Inr r2" and "job_state r2 = ''Completed''"
  shows "fst (poll_loop maxA itv en c [] 0 w) = Loop_done ''Completed''
         \<and> status_calls (snd (poll_loop maxA itv en c [] 0 w)) = status_calls w + 3
         \<and> sleeps (snd (poll_loop maxA itv en c [] 0 w)) = sleeps w @ [Sleep itv, Sleep itv]
         \<and> last (w_trace (snd (poll_loop maxA itv en c [] 0 w))) = Console_log L_job_completed
         \<and> monitor_and_download maxA itv en c w =
             (case downloadResults en c (snd (poll_loop maxA itv en c [] 0 w)) of
                (Inl e, w2) \<Rightarrow> (Inl e, w2)
              | (Inr u, w2) \<Rightarrow>
                  (Inr (),
                   emit (Console_log (L_results_saved DESTINATION_DIR))
                     (emit (Console_log L_processing_complete) w2)))"
proof -
  let ?w1 = "emit (Sleep itv)
               (emit (Console_log (L_current_status ''Running'' 1 maxA)) (answered c r0 w))"
  let ?w2 = "emit (Sleep itv)
               (emit (Console_log (L_current_status ''Running'' 2 maxA)) (answered c r1 ?w1))"
  let ?w3 = "emit (Console_log L_job_completed) (answered c r2 ?w2)"
  from assms(1) have lt: "0 < maxA" "Suc 0 < maxA" "Suc (Suc 0) < maxA" by arith+
  have s1: "poll_loop maxA itv en c [] 0 w = poll_loop maxA itv en c ''Running'' (Suc 0) ?w1"
    using poll_loop_continue [OF lt(1) assms(2), of itv c "[]"] assms(3) by simp
  have s2: "poll_loop maxA itv en c ''Running'' (Suc 0) ?w1 =
              poll_loop maxA itv en c ''Running'' (Suc (Suc 0)) ?w2"
    using poll_loop_continue [OF lt(2), of en ?w1 r1 itv c "''Running''"] assms(4,5)
    by (simp add: numeral_2_eq_2)
  have s3: "poll_loop maxA itv en c ''Running'' (Suc (Suc 0)) ?w2 = (Loop_done ''Completed'', ?w3)"
    using poll_loop_completed [OF lt(3), of en ?w2 r2 itv c "''Running''"] assms(6,7)
    by simp
  have p: "poll_loop maxA itv en c [] 0 w = (Loop_done ''Completed'', ?w3)"
    by (simp only: s1 s2 s3)
  show ?thesis by (simp add: monitor_and_download_def p)
qed

theorem poll_running_running_completed_witness:
  "fst (poll_loop maxAttempts interval env_completing sample_client [] 0 world0) =
     Loop_done ''Completed''
   \<and> status_calls (snd (poll_loop maxAttempts interval env_completing sample_client [] 0 world0)) = 3
   \<and> artifact_events (snd (monitor_and_download maxAttempts interval env_completing sample_client world0)) =
       [Get_artifact ''https://store/out/a.json'', Write_file ''./output/a.json'' ''{}'',
        Get_artifact ''https://store/out/b.txt'', Write_file ''./output/b.txt'' ''text'']"
proof -
  have h: "3 \<le> maxAttempts"
    "status_script env_completing (w_polls world0) = Inr running" "job_state running = ''Running''"
    "status_script env_completing (w_polls world0 + 1) = Inr running"
    "status_script env_completing (w_polls world0 + 2) = Inr completed"
    "job_state completed = ''Completed''"
    by (simp_all add: maxAttempts_def env_completing_def world0_def running_def completed_def)
  have d: "artifact_events (snd (monitor_and_download maxAttempts interval env_completing sample_client world0)) =
       [Get_artifact ''https://store/out/a.json'', Write_file ''./output/a.json'' ''{}'',
        Get_artifact ''https://store/out/b.txt'', Write_file ''./output/b.txt'' ''text'']"
    by (simp add: run_defs)
  from poll_running_running_completed
    [OF h(1) h(2) h(3) h(4) h(3) h(5) h(6), of interval sample_client] d
  show ?thesis
    by (simp add: status_calls_def world0_def)
qed

subsection \<open>The claim about the download\<close>

text \<open>
  C6. For the listing \<open>a.json\<close>, \<open>b.txt\<close> (with the destination directory present or
  creatable, both fetches answered and both writes finishing) \<open>downloadResults\<close> makes
  exactly two downloads, in listing order, the first file written before the second is
  fetched; afterwards each destination file, \<open>./output/\<close> followed by the name, holds the
  bytes the service sent for it.
\<close>

theorem downloadResults_two_artifacts:
  assumes "listing_reply en = Inr [\<lparr>entry_name = ''a.json''\<rparr>, \<lparr>entry_name = ''b.txt''\<rparr>]"
    and "outputStoragePath c = Some out"
    and "artifact_reply en (out @ ''/a.json'') = Inr bytes_a"
    and "artifact_reply en (out @ ''/b.txt'') = Inr bytes_b"
    and "write_error en ''./output/a.json'' = None"
    and "write_error en ''./output/b.txt'' = None"
    and "existsSync w ''./output'' \<or> mkdir_error en = None"
  shows "fst (downloadResults en c w) = Inr ()
         \<and> artifact_events (snd (downloadResults en c w)) = artifact_events w @
             [Get_artifact (out @ ''/a.json''), Write_file ''./output/a.json'' bytes_a,
              Get_artifact (out @ ''/b.txt''), Write_file ''./output/b.txt'' bytes_b]
         \<and> w_files (snd (downloadResults en c w)) ''./output/a.json'' = Some bytes_a
         \<and> w_files (snd (downloadResults en c w)) ''./output/b.txt'' = Some bytes_b"
proof -
  obtain w1 where e: "ensure_destination en (emit (Console_log L_downloading) w) = (Inr (), w1)"
    and a1: "artifact_events w1 = artifact_events w"
    using assms(7)
    by (cases "existsSync w ''./output''")
      (auto simp: ensure_destination_def DESTINATION_DIR_def split: option.splits)
  let ?w2 = "emit (Get_listing (outputStoragePath c)) w1"
  have d: "download_each en c [\<lparr>entry_name = ''a.json''\<rparr>, \<lparr>entry_name = ''b.txt''\<rparr>] ?w2 =
      (Inr (),
       emit (Console_log (L_downloaded ''b.txt''))
         ((emit (Write_file ''./output/b.txt'' bytes_b)
            (emit (Get_artifact (out @ ''/b.txt''))
              (emit (Console_log (L_downloaded ''a.json''))
                ((emit (Write_file ''./output/a.json'' bytes_a)
                   (emit (Get_artifact (out @ ''/a.json'')) ?w2))
                 \<lparr>w_files := (w_files w1)(''./output/a.json'' \<mapsto> bytes_a)\<rparr>))))
          \<lparr>w_files := (w_files w1)(''./output/a.json'' \<mapsto> bytes_a,
                                     ''./output/b.txt'' \<mapsto> bytes_b)\<rparr>))"
    using assms(2-6) by (simp add: Let_def js_str_def DESTINATION_DIR_def)
  show ?thesis
    using assms(1) a1
    by (simp add: downloadResults_def download_try_def e Let_def d del: download_each.simps)
qed

theorem downloadResults_two_artifacts_witness:
  "fst (downloadResults env_running sample_client world0) = Inr ()
   \<and> artifact_events (snd (downloadResults env_running sample_client world0)) =
       [Get_artifact ''https://store/out/a.json'', Write_file ''./output/a.json'' ''{}'',
        Get_artifact ''https://store/out/b.txt'', Write_file ''./output/b.txt'' ''text'']
   \<and> w_files (snd (downloadResults env_running sample_client world0)) ''./output/a.json'' =
       Some ''{}''
   \<and> w_files (snd (downloadResults env_running sample_client world0)) ''./output/b.txt'' =
       Some ''text''"
proof -
  have h: "listing_reply env_running = Inr [\<lparr>entry_name = ''a.json''\<rparr>, \<lparr>entry_name = ''b.txt''\<rparr>]"
    "outputStoragePath sample_client = Some ''https://store/out''"
    "artifact_reply env_running (''https://store/out'' @ ''/a.json'') = Inr ''{}''"
    "artifact_reply env_running (''https://store/out'' @ ''/b.txt'') = Inr ''text''"
    "write_error env_running ''./output/a.json'' = None"
    "write_error env_running ''./output/b.txt'' = None"
    "existsSync world0 ''./output'' \<or> mkdir_error env_running = None"
    by (simp_all add: env_running_def sample_client_def)
  from downloadResults_two_artifacts [OF h] show ?thesis
    by (simp add: artifact_events_def world0_def)
qed

subsection \<open>Error output ends a run\<close>

lemma quiet_simps [simp]:
  "quiet []"
  "quiet (e # evs) \<longleftrightarrow> \<not> is_console_error e \<and> quiet evs"
  "quiet (xs @ ys) \<longleftrightarrow> quiet xs \<and> quiet ys"
  by (simp_all add: quiet_def)

lemma errors_last_simps [simp]:
  "errors_last []"
  "errors_last (e # evs) \<longleftrightarrow>
     (if is_console_error e then list_all is_console_error evs else errors_last evs)"
  by (simp_all add: errors_last_def)




lemma went_quietly_refl [simp]: "went_quietly w w"
  by (simp add: went_quietly_def)


lemma went_quietly_update [simp]:
  "went_quietly w (w1\<lparr>w_polls := n\<rparr>) = went_quietly w w1"
  "went_quietly w (w1\<lparr>w_files := f\<rparr>) = went_quietly w w1"
  "went_quietly w (w1\<lparr>w_dirs := d\<rparr>) = went_quietly w w1"
  by (simp_all add: went_quietly_def)














lemma went_quietly_answered: "went_quietly w (answered c r w)"
  by (simp add: went_quietly_def)







subsection \<open>The claim about the exit status\<close>















end
